theory Spec2Isabelle
  imports Main "HOL-Library.Sublist"
begin

section \<open>Errors raised by the notebook's pandas calls\<close>

text \<open>
  The notebook has no \<open>raise\<close> statement and no \<open>try\<close> block of its own.  The
  errors cells 8 and 35 can produce are the ones pandas raises: \<open>KeyError\<close> from a label
  lookup with a missing label, \<open>TypeError\<close> from a cast that would lose information, and
  \<open>OverflowError\<close> from the cast of an infinite value.
\<close>

datatype error = KeyError | TypeError | OverflowError

section \<open>Multi-omics sample alignment (cell 35)\<close>

text \<open>
  \<^verbatim>\<open>
  common_indices = prot.index.intersection(metab.index)
  prot = prot.loc[common_indices]
  metab = metab.loc[common_indices]
  \<close>
  A data frame is seen here along its row axis: the list of its rows in order, each row
  being its index label (the \<open>sample_id\<close>) and its content.  Nothing in \<open>set_index\<close>
  checks that labels are unique, so the model allows repeated labels.
\<close>

type_synonym ('s, 'r) frame = "('s \<times> 'r) list"

definition index :: "('s, 'r) frame \<Rightarrow> 's list" where
  "index df = map fst df"

text \<open>\<open>Index.unique\<close>: the first occurrence of each label, in order of appearance.\<close>

fun unique :: "'a list \<Rightarrow> 'a list" where
  "unique [] = []"
| "unique (x # xs) = x # filter (\<lambda>y. y \<noteq> x) (unique xs)"

text \<open>
  \<open>Index.intersection(other)\<close> with the default \<open>sort=False\<close>: the distinct labels of the
  calling index that also occur in \<open>other\<close>, in the order of the calling index.
\<close>

definition intersection :: "'a list \<Rightarrow> 'a list \<Rightarrow> 'a list" where
  "intersection self other = filter (\<lambda>k. k \<in> set other) (unique self)"

text \<open>
  \<open>df.loc[labels]\<close> with a list of labels: for each requested label in turn, every row
  carrying that label; \<open>KeyError\<close> when a requested label is not in the index.
\<close>

definition loc :: "('s, 'r) frame \<Rightarrow> 's list \<Rightarrow> error + ('s, 'r) frame" where
  "loc df labels =
     (if list_all (\<lambda>k. k \<in> set (index df)) labels
      then Inr (concat (map (\<lambda>k. filter (\<lambda>r. fst r = k) df) labels))
      else Inl KeyError)"

definition common_indices :: "('s, 'r) frame \<Rightarrow> ('s, 'q) frame \<Rightarrow> 's list" where
  "common_indices prot metab = intersection (index prot) (index metab)"

text \<open>The three statements of cell 35; the result is the new value of \<open>(prot, metab)\<close>.\<close>

definition align_samples ::
  "('s, 'r) frame \<Rightarrow> ('s, 'q) frame \<Rightarrow> error + (('s, 'r) frame \<times> ('s, 'q) frame)" where
  "align_samples prot metab =
     (let common = common_indices prot metab in
      case loc prot common of
        Inl e \<Rightarrow> Inl e
      | Inr prot' \<Rightarrow>
          (case loc metab common of
             Inl e \<Rightarrow> Inl e
           | Inr metab' \<Rightarrow> Inr (prot', metab')))"

section \<open>Identifier normalisation (cell 8)\<close>

text \<open>
  \<^verbatim>\<open>
  conversion_table['ChEBI'] = pd.to_numeric(conversion_table['ChEBI'], errors='coerce')
  conversion_table.dropna(subset=['ChEBI'], inplace=True)
  conversion_table['ChEBI'] = conversion_table['ChEBI'].astype('Int64')
  \<close>
  A row of the conversion table carries the three columns the notebook reads.  The type
  of the \<open>ChEBI\<close> cell changes from statement to statement, so it is a parameter.
\<close>

datatype 'c row = Row (Query: string) (ChEBI: 'c) (Comment: string)

text \<open>
  A cell of the column after \<open>pd.to_numeric\<close>.  The column is then numeric (a float
  column as soon as one cell is missing or fractional), and the three statements only
  distinguish: the missing value, a finite value equal to an integer, a finite value
  with a fractional part, and an infinite value.
\<close>

datatype numeric = NaN | Whole int | Fractional | Infinite

text \<open>
  \<open>pd.to_numeric(..., errors='coerce')\<close> on one raw cell (\<open>None\<close> or a string): plain
  decimal notation, that is optional surrounding white space, an optional sign, digits
  and an optional fractional part; a cell that does not read as a number becomes
  \<open>NaN\<close> instead of raising.  pandas reads more spellings than these (exponents such as
  \<open>1e3\<close>, the words \<open>inf\<close> and \<open>nan\<close>) and rounds what does not fit a float; the
  general statements below therefore take the reader of a cell as a parameter, and this
  function serves for runs on concrete tables.
\<close>

definition is_space :: "char \<Rightarrow> bool" where
  "is_space c = (c \<in> set [CHR '' '', CHR 0x09, CHR 0x0A, CHR 0x0B, CHR 0x0C, CHR 0x0D])"

definition is_digit :: "char \<Rightarrow> bool" where
  "is_digit c = (c \<in> set ''0123456789'')"

definition digit_val :: "char \<Rightarrow> int" where
  "digit_val c = int (length (takeWhile (\<lambda>d. d \<noteq> c) ''0123456789''))"

definition digits_val :: "string \<Rightarrow> int" where
  "digits_val ds = foldl (\<lambda>a c. 10 * a + digit_val c) 0 ds"

definition strip :: "string \<Rightarrow> string" where
  "strip s = rev (dropWhile is_space (rev (dropWhile is_space s)))"

definition unsigned_decimal :: "string \<Rightarrow> numeric" where
  "unsigned_decimal u =
     (let ip = takeWhile is_digit u in
      case dropWhile is_digit u of
        [] \<Rightarrow> (if ip = [] then NaN else Whole (digits_val ip))
      | c # fp \<Rightarrow>
          (if c = CHR ''.'' \<and> list_all is_digit fp \<and> (ip \<noteq> [] \<or> fp \<noteq> [])
           then (if list_all (\<lambda>d. d = CHR ''0'') fp then Whole (digits_val ip) else Fractional)
           else NaN))"

fun negate :: "numeric \<Rightarrow> numeric" where
  "negate (Whole i) = Whole (- i)"
| "negate v = v"

definition to_numeric :: "string option \<Rightarrow> numeric" where
  "to_numeric cell =
     (case cell of
        None \<Rightarrow> NaN
      | Some s \<Rightarrow>
          (case strip s of
             [] \<Rightarrow> NaN
           | c # u \<Rightarrow>
               (if c = CHR ''-'' then negate (unsigned_decimal u)
                else if c = CHR ''+'' then unsigned_decimal u
                else unsigned_decimal (c # u))))"

text \<open>\<open>dropna(subset=['ChEBI'])\<close>: the rows whose \<open>ChEBI\<close> cell is missing go, the others
  stay in place.\<close>

definition dropna :: "numeric row list \<Rightarrow> numeric row list" where
  "dropna tbl = filter (\<lambda>r. ChEBI r \<noteq> NaN) tbl"

text \<open>
  \<open>astype('Int64')\<close> on one cell of a float column.  The target is the nullable 64-bit
  integer type: a missing value stays missing (\<open>None\<close> here), a whole value in range is
  kept, a fractional value or a whole value out of range makes the cast raise
  \<open>TypeError\<close> (\<open>cannot safely cast non-equivalent float64 to int64\<close>), and an infinite
  value makes it raise \<open>OverflowError\<close>.
\<close>

definition int64_range :: "int \<Rightarrow> bool" where
  "int64_range i = (- (2 ^ 63) \<le> i \<and> i < 2 ^ 63)"

fun astype_Int64 :: "numeric \<Rightarrow> error + int option" where
  "astype_Int64 NaN = Inr None"
| "astype_Int64 (Whole i) = (if int64_range i then Inr (Some i) else Inl TypeError)"
| "astype_Int64 Fractional = Inl TypeError"
| "astype_Int64 Infinite = Inl OverflowError"

text \<open>The cast of the whole column: the first cell that cannot be cast aborts the statement.\<close>

fun astype_column :: "numeric row list \<Rightarrow> error + int option row list" where
  "astype_column [] = Inr []"
| "astype_column (r # rs) =
     (case astype_Int64 (ChEBI r) of
        Inl e \<Rightarrow> Inl e
      | Inr v \<Rightarrow>
          (case astype_column rs of
             Inl e \<Rightarrow> Inl e
           | Inr rs' \<Rightarrow> Inr (Row (Query r) v (Comment r) # rs')))"

text \<open>
  The three statements of cell 8, with the reader of a raw cell as the parameter
  \<open>parse\<close>; the result is the new value of \<open>conversion_table\<close>.
\<close>

definition normalise_conversion_table ::
  "('c \<Rightarrow> numeric) \<Rightarrow> 'c row list \<Rightarrow> error + int option row list" where
  "normalise_conversion_table parse conversion_table =
     astype_column (dropna (map (map_row parse) conversion_table))"

section \<open>Matrix re-annotation (the call in cell 10)\<close>

text \<open>
  \<^verbatim>\<open>
  processed_data_mapped = sspa.map_identifiers(conversion_table, output_id_type="ChEBI",
                                               matrix=processed_data)
  \<close>
  The function is library code and not among the sources; what follows is written from
  the spec's sections 3 and 4.3.
\<close>

text \<open>
  Modelled from the spec: the columns of an AbundanceMatrix (the data frame type is
  library code).  A matrix is seen here along its column axis: the list of its columns
  in order, each with its key and its content.  A key is a compound name before
  re-annotation and a ChEBI identifier after it; a name and an identifier are never
  equal.
\<close>

datatype colkey = CompoundName string | ChEBI_ID int

type_synonym 'c matrix = "(colkey \<times> 'c) list"

text \<open>
  Modelled from the spec: the entry of a compound name in the cleaned conversion table
  (part of \<open>sspa.map_identifiers\<close>, which is library code and not among the sources).
  The spec asks for an explicit first-wins or last-wins policy for a name with several
  records and fixes neither; the first record with an identifier is taken here.
\<close>

definition resolvedId :: "int option row list \<Rightarrow> string \<Rightarrow> int option" where
  "resolvedId tbl n =
     (case filter (\<lambda>r. Query r = n \<and> ChEBI r \<noteq> None) tbl of
        [] \<Rightarrow> None
      | r # _ \<Rightarrow> ChEBI r)"

text \<open>
  Modelled from the spec: renaming one column key and one column (part of
  \<open>sspa.map_identifiers\<close>, absent from the sources).  A column whose compound name has an
  entry in the cleaned table is renamed to the resolved identifier, and a column whose
  compound name has no entry is dropped (section 4.3).  A column that is already keyed
  by an identifier keeps its key: section 4.3 speaks of name-keyed columns only, and
  section 8 has the re-annotation of a re-annotated matrix change nothing.
\<close>

definition rename_key :: "int option row list \<Rightarrow> colkey \<Rightarrow> colkey option" where
  "rename_key tbl k =
     (case k of
        CompoundName n \<Rightarrow> map_option ChEBI_ID (resolvedId tbl n)
      | ChEBI_ID i \<Rightarrow> Some (ChEBI_ID i))"

definition rename_column :: "int option row list \<Rightarrow> colkey \<times> 'c \<Rightarrow> (colkey \<times> 'c) option" where
  "rename_column tbl kc = map_option (\<lambda>k. (k, snd kc)) (rename_key tbl (fst kc))"

text \<open>
  Modelled from the spec: the Matrix Re-annotator (\<open>sspa.map_identifiers\<close>, absent from
  the sources).  The output has unique keys, in the order in which the identifiers are
  first met.  The spec requires a deterministic merge policy for columns that resolve
  to the same identifier and leaves its choice open; it is the parameter \<open>merge\<close>,
  applied to the colliding columns in their order, and a column that collides with no
  other is kept as it is.
\<close>

definition reannotate ::
  "('c list \<Rightarrow> 'c) \<Rightarrow> int option row list \<Rightarrow> 'c matrix \<Rightarrow> 'c matrix" where
  "reannotate merge tbl m =
     (let renamed = List.map_filter (rename_column tbl) m in
      map (\<lambda>k. (k, case map snd (filter (\<lambda>kc. fst kc = k) renamed) of
                      [c] \<Rightarrow> c
                    | cs \<Rightarrow> merge cs))
          (unique (map fst renamed)))"

section \<open>Coverage filter (the \<open>min_coverage\<close> argument in cells 40 and 47)\<close>

text \<open>
  \<^verbatim>\<open>
  pi_model = pathintegrate.PathIntegrate(omics_data=..., pathway_source=mo_paths,
                                         sspa_scoring=sspa.sspa_SVD, min_coverage=4)
  \<close>
  The notebook only passes the constant 4; the filtering itself happens inside the
  library, which is not among the sources.  What follows is written from the spec's
  sections 3 and 4.5.
\<close>

text \<open>
  Modelled from the spec: the PathwayDatabase, a mapping from pathway identifiers to a
  name and a set of member identifiers (the database type is library code), kept as an
  association list; and the one way the filter can fail.
\<close>

record pathway =
  name :: string
  members :: "int list"

type_synonym 'p pathway_database = "('p \<times> pathway) list"

datatype coverage_error = RejectedCoverage

text \<open>
  Modelled from the spec: the identifiers that key the columns of a re-annotated matrix
  (\<open>matrix.columns\<close> in the spec's section 4.5).
\<close>

definition column_ids :: "'c matrix \<Rightarrow> int list" where
  "column_ids m =
     List.map_filter (\<lambda>kc. case fst kc of ChEBI_ID i \<Rightarrow> Some i | CompoundName n \<Rightarrow> None) m"

text \<open>
  Modelled from the spec: the coverage of a pathway in a dataset, the number of its
  members among the matrix columns (computed inside \<open>pathintegrate\<close>, absent from the
  sources).  The members are a set: a member listed twice counts once.
\<close>

definition coverage :: "pathway \<Rightarrow> 'c matrix \<Rightarrow> nat" where
  "coverage pw m = card (set (members pw) \<inter> set (column_ids m))"

text \<open>
  Modelled from the spec: the Coverage Filter (inside \<open>pathintegrate.PathIntegrate\<close>,
  absent from the sources).  A minimum coverage \<open>k \<le> 0\<close> is rejected; otherwise the
  pathways with coverage at least \<open>k\<close> are kept, with their identifiers and names.
\<close>

definition coverage_filter ::
  "int \<Rightarrow> 'p pathway_database \<Rightarrow> 'c matrix \<Rightarrow> coverage_error + 'p pathway_database" where
  "coverage_filter k db m =
     (if k \<le> 0 then Inl RejectedCoverage
      else Inr (filter (\<lambda>e. k \<le> int (coverage (snd e) m)) db))"

section \<open>Properties of the alignment\<close>

lemma set_unique [simp]: "set (unique xs) = set xs"
  by (induction xs) auto

lemma distinct_unique [simp]: "distinct (unique xs)"
  by (induction xs) auto

lemma unique_distinct: "distinct xs \<Longrightarrow> unique xs = xs"
proof (induction xs)
  case Nil
  then show ?case by simp
next
  case (Cons x xs)
  then have "x \<notin> set (unique xs)" by simp
  then have "filter (\<lambda>y. y \<noteq> x) (unique xs) = unique xs"
    by (auto simp: filter_id_conv)
  with Cons show ?case by simp
qed

lemma set_intersection: "set (intersection xs ys) = set xs \<inter> set ys"
  by (auto simp: intersection_def)

lemma distinct_intersection: "distinct (intersection xs ys)"
  by (simp add: intersection_def)

lemma intersection_distinct:
  "distinct xs \<Longrightarrow> intersection xs ys = filter (\<lambda>k. k \<in> set ys) xs"
  by (simp add: intersection_def unique_distinct)

lemma intersection_empty:
  "set xs \<inter> set ys = {} \<Longrightarrow> intersection xs ys = []"
  using set_intersection [of xs ys] by simp

text \<open>Selecting rows by labels that all occur never raises.\<close>

lemma loc_subset:
  "set labels \<subseteq> set (index df) \<Longrightarrow>
   loc df labels = Inr (concat (map (\<lambda>k. filter (\<lambda>r. fst r = k) df) labels))"
  by (auto simp: loc_def list_all_iff)

lemma filter_key_absent:
  "k \<notin> fst ` set df \<Longrightarrow> filter (\<lambda>r. fst r = k) df = []"
  by (induction df) auto

text \<open>With unique labels, each requested label yields exactly one row.\<close>

lemma filter_key_distinct:
  "distinct (map fst df) \<Longrightarrow> (k, v) \<in> set df \<Longrightarrow> filter (\<lambda>r. fst r = k) df = [(k, v)]"
proof (induction df)
  case Nil
  then show ?case by simp
next
  case (Cons r df)
  show ?case
  proof (cases "r = (k, v)")
    case True
    with Cons.prems have "k \<notin> fst ` set df" by auto
    then have "filter (\<lambda>r. fst r = k) df = []"
      by (rule filter_key_absent)
    with True show ?thesis by simp
  next
    case False
    with Cons.prems have mem: "(k, v) \<in> set df" by simp
    with Cons.prems have "fst r \<noteq> k" by (auto simp: image_iff)
    moreover from Cons.prems mem Cons.IH have "filter (\<lambda>r. fst r = k) df = [(k, v)]" by simp
    ultimately show ?thesis by simp
  qed
qed

lemma index_rows_of_labels:
  "distinct (map fst df) \<Longrightarrow> set labels \<subseteq> fst ` set df \<Longrightarrow>
   map fst (concat (map (\<lambda>k. filter (\<lambda>r. fst r = k) df) labels)) = labels"
proof (induction labels)
  case Nil
  then show ?case by simp
next
  case (Cons k ks)
  from Cons.prems obtain v where "(k, v) \<in> set df" by auto
  with Cons.prems have "filter (\<lambda>r. fst r = k) df = [(k, v)]"
    by (simp add: filter_key_distinct)
  with Cons show ?case by simp
qed

text \<open>
  Taking the rows of a frame for the labels it shares with a second index, in the frame's
  own order, is the same as filtering the frame.
\<close>

lemma rows_of_own_labels:
  "distinct (map fst df) \<Longrightarrow>
   concat (map (\<lambda>k. filter (\<lambda>r. fst r = k) df) (filter P (map fst df))) =
   filter (\<lambda>r. P (fst r)) df"
proof (induction df)
  case Nil
  then show ?case by simp
next
  case (Cons r df)
  from Cons.prems have notin: "fst r \<notin> fst ` set df" and d: "distinct (map fst df)"
    by auto
  have tail: "\<And>ks. set ks \<subseteq> fst ` set df \<Longrightarrow>
      concat (map (\<lambda>k. filter (\<lambda>q. fst q = k) (r # df)) ks) =
      concat (map (\<lambda>k. filter (\<lambda>q. fst q = k) df) ks)"
  proof -
    fix ks :: "'a list"
    assume "set ks \<subseteq> fst ` set df"
    with notin have "\<forall>k \<in> set ks. fst r \<noteq> k" by auto
    then show "concat (map (\<lambda>k. filter (\<lambda>q. fst q = k) (r # df)) ks) =
      concat (map (\<lambda>k. filter (\<lambda>q. fst q = k) df) ks)"
      by (induction ks) auto
  qed
  have sub: "set (filter P (map fst df)) \<subseteq> fst ` set df" by auto
  from notin have none: "filter (\<lambda>q. fst q = fst r) df = []"
    by (rule filter_key_absent)
  show ?case
  proof (cases "P (fst r)")
    case True
    then show ?thesis
      using tail [OF sub] Cons.IH [OF d] none by simp
  next
    case False
    then show ?thesis
      using tail [OF sub] Cons.IH [OF d] by simp
  qed
qed

lemma align_samples_total:
  "align_samples prot metab =
     Inr (concat (map (\<lambda>k. filter (\<lambda>r. fst r = k) prot) (common_indices prot metab)),
          concat (map (\<lambda>k. filter (\<lambda>r. fst r = k) metab) (common_indices prot metab)))"
proof -
  have "set (common_indices prot metab) \<subseteq> set (index prot)"
    and "set (common_indices prot metab) \<subseteq> set (index metab)"
    by (auto simp: common_indices_def set_intersection)
  then show ?thesis
    by (simp add: align_samples_def Let_def loc_subset)
qed

lemma set_rows_of_labels:
  "set (concat (map (\<lambda>k. filter (\<lambda>r. fst r = k) df) labels)) =
   set (filter (\<lambda>r. fst r \<in> set labels) df)"
  by auto

lemma common_indices_distinct:
  "distinct (index prot) \<Longrightarrow>
   common_indices prot metab = filter (\<lambda>k. k \<in> set (index metab)) (index prot)"
  by (simp add: common_indices_def intersection_distinct)

lemma set_common_indices:
  "set (common_indices prot metab) = set (index prot) \<inter> set (index metab)"
  by (simp add: common_indices_def set_intersection)

lemmas align_eval = align_samples_def common_indices_def intersection_def loc_def index_def

text \<open>
  Claim C1, as the code has it: when the two matrices have no sample identifier in
  common, cell 35 raises nothing and leaves both matrices with no rows.
\<close>

theorem align_samples_no_common:
  assumes "set (index prot) \<inter> set (index metab) = {}"
  shows "align_samples prot metab = Inr ([], [])"
proof -
  from assms have "common_indices prot metab = []"
    by (simp add: common_indices_def intersection_empty)
  then show ?thesis by (simp add: align_samples_total)
qed

theorem align_samples_no_common_witness:
  "set (index [(''A'', 1::int), (''B'', 2)]) \<inter> set (index [(''C'', 3::int), (''D'', 4)]) = {}
   \<and> align_samples [(''A'', 1::int), (''B'', 2)] [(''C'', 3::int), (''D'', 4)] = Inr ([], [])"
proof -
  have h: "set (index [(''A'', 1::int), (''B'', 2)]) \<inter> set (index [(''C'', 3::int), (''D'', 4)]) = {}"
    by (simp add: index_def)
  from h align_samples_no_common [OF h] show ?thesis by simp
qed

text \<open>
  Claim C1 as stated asks for an error on disjoint sample sets.  On the sample sets
  \<open>{A, B}\<close> and \<open>{C, D}\<close> the cell returns two empty matrices and no error.
\<close>

theorem align_samples_empty_counterexample:
  "align_samples [(''A'', 1::int), (''B'', 2)] [(''C'', 3::int), (''D'', 4)] = Inr ([], [])
   \<and> \<not> isl (align_samples [(''A'', 1::int), (''B'', 2)] [(''C'', 3::int), (''D'', 4)])"
  by (simp add: align_eval)

text \<open>
  Claim C6, as the code has it: for matrices with unique sample identifiers and a common
  sample, cell 35 restricts each matrix to the rows of the common samples.  The first
  matrix keeps its own row order; the second matrix has exactly its rows of the common
  samples, arranged in the order of the first matrix, which is its own order whenever
  the two matrices list the common samples in the same order.
\<close>

theorem align_samples_rows:
  assumes "distinct (index prot)" and "distinct (index metab)"
    and "set (index prot) \<inter> set (index metab) \<noteq> {}"
  shows "\<exists>prot' metab'. align_samples prot metab = Inr (prot', metab')
     \<and> prot' = filter (\<lambda>r. fst r \<in> set (index metab)) prot
     \<and> set metab' = set (filter (\<lambda>r. fst r \<in> set (index prot)) metab)
     \<and> index metab' = index prot'
     \<and> (filter (\<lambda>k. k \<in> set (index prot)) (index metab) = index prot' \<longrightarrow>
          metab' = filter (\<lambda>r. fst r \<in> set (index prot)) metab)"
proof -
  let ?c = "common_indices prot metab"
  let ?p = "concat (map (\<lambda>k. filter (\<lambda>r. fst r = k) prot) ?c)"
  let ?m = "concat (map (\<lambda>k. filter (\<lambda>r. fst r = k) metab) ?c)"
  have c: "?c = filter (\<lambda>k. k \<in> set (index metab)) (map fst prot)"
    using assms(1) by (simp add: common_indices_distinct index_def)
  have sp: "set ?c \<subseteq> fst ` set prot" and sm: "set ?c \<subseteq> fst ` set metab"
    by (auto simp: set_common_indices index_def)
  have p: "?p = filter (\<lambda>r. fst r \<in> set (index metab)) prot"
    using assms(1) unfolding c by (simp add: rows_of_own_labels index_def)
  have ip: "index ?p = ?c"
    using assms(1) sp by (simp add: index_rows_of_labels index_def)
  have im: "index ?m = ?c"
    using assms(2) sm by (simp add: index_rows_of_labels index_def)
  have "set ?m = set (filter (\<lambda>r. fst r \<in> set ?c) metab)"
    by (rule set_rows_of_labels)
  also have "\<dots> = set (filter (\<lambda>r. fst r \<in> set (index prot)) metab)"
    by (auto simp: set_common_indices index_def)
  finally have sm': "set ?m = set (filter (\<lambda>r. fst r \<in> set (index prot)) metab)" .
  have same: "?m = filter (\<lambda>r. fst r \<in> set (index prot)) metab"
    if "filter (\<lambda>k. k \<in> set (index prot)) (index metab) = index ?p"
  proof -
    from that ip have "?c = filter (\<lambda>k. k \<in> set (index prot)) (map fst metab)"
      by (simp add: index_def)
    then have "?m = concat (map (\<lambda>k. filter (\<lambda>r. fst r = k) metab)
                 (filter (\<lambda>k. k \<in> set (index prot)) (map fst metab)))"
      by simp
    also have "\<dots> = filter (\<lambda>r. fst r \<in> set (index prot)) metab"
      using assms(2) by (simp add: rows_of_own_labels index_def)
    finally show ?thesis .
  qed
  show ?thesis
    unfolding align_samples_total using p ip im sm' same by simp
qed

text \<open>The sample sets \<open>{A, B, C}\<close> and \<open>{B, C, D}\<close>, each listed in this order.\<close>

theorem align_samples_rows_witness:
  "distinct (index [(''A'', 1::int), (''B'', 2), (''C'', 3)])
   \<and> distinct (index [(''B'', 20::int), (''C'', 30), (''D'', 40)])
   \<and> set (index [(''A'', 1::int), (''B'', 2), (''C'', 3)])
       \<inter> set (index [(''B'', 20::int), (''C'', 30), (''D'', 40)]) \<noteq> {}
   \<and> filter (\<lambda>k. k \<in> set (index [(''A'', 1::int), (''B'', 2), (''C'', 3)]))
        (index [(''B'', 20::int), (''C'', 30), (''D'', 40)]) = [''B'', ''C'']
   \<and> align_samples [(''A'', 1::int), (''B'', 2), (''C'', 3)]
                   [(''B'', 20::int), (''C'', 30), (''D'', 40)]
       = Inr ([(''B'', 2), (''C'', 3)], [(''B'', 20), (''C'', 30)])"
proof -
  have h1: "distinct (index [(''A'', 1::int), (''B'', 2), (''C'', 3)])"
    by (simp add: index_def)
  have h2: "distinct (index [(''B'', 20::int), (''C'', 30), (''D'', 40)])"
    by (simp add: index_def)
  have h3: "set (index [(''A'', 1::int), (''B'', 2), (''C'', 3)])
       \<inter> set (index [(''B'', 20::int), (''C'', 30), (''D'', 40)]) \<noteq> {}"
    by (simp add: index_def)
  from align_samples_rows [OF h1 h2 h3] h1 h2 h3 show ?thesis
    by (auto simp: index_def)
qed

text \<open>
  Claim C6 as stated has each matrix keep its own row order.  With the second matrix
  listing \<open>C\<close> before \<open>B\<close>, its aligned rows come out as \<open>B, C\<close>, while its own order
  restricted to the common samples is \<open>C, B\<close>.
\<close>

theorem align_samples_order_counterexample:
  "align_samples [(''A'', 1::int), (''B'', 2), (''C'', 3)]
                 [(''C'', 30::int), (''B'', 20), (''D'', 40)]
     = Inr ([(''B'', 2), (''C'', 3)], [(''B'', 20), (''C'', 30)])
   \<and> filter (\<lambda>r. fst r \<in> {''B'', ''C''}) [(''C'', 30::int), (''B'', 20), (''D'', 40)]
     = [(''C'', 30), (''B'', 20)]"
  by (simp add: align_eval)

text \<open>
  Claim C9, as the code has it: for matrices with unique sample identifiers and a common
  sample, the two matrices cell 35 leaves behind have the same row index sequence, which
  is the index of the first matrix restricted to the common samples.
\<close>

theorem aligned_indexes_identical:
  assumes "distinct (index prot)" and "distinct (index metab)"
    and "set (index prot) \<inter> set (index metab) \<noteq> {}"
  shows "\<exists>prot' metab'. align_samples prot metab = Inr (prot', metab')
     \<and> index prot' = index metab'
     \<and> index prot' = filter (\<lambda>k. k \<in> set (index metab)) (index prot)
     \<and> index prot' \<noteq> []"
proof -
  let ?c = "common_indices prot metab"
  let ?p = "concat (map (\<lambda>k. filter (\<lambda>r. fst r = k) prot) ?c)"
  let ?m = "concat (map (\<lambda>k. filter (\<lambda>r. fst r = k) metab) ?c)"
  have c: "?c = filter (\<lambda>k. k \<in> set (index metab)) (index prot)"
    using assms(1) by (rule common_indices_distinct)
  have sp: "set ?c \<subseteq> fst ` set prot" and sm: "set ?c \<subseteq> fst ` set metab"
    by (auto simp: set_common_indices index_def)
  have ip: "index ?p = ?c"
    using assms(1) sp by (simp add: index_rows_of_labels index_def)
  have im: "index ?m = ?c"
    using assms(2) sm by (simp add: index_rows_of_labels index_def)
  from assms(3) have ne: "?c \<noteq> []"
    using set_common_indices [of prot metab] by auto
  have "align_samples prot metab = Inr (?p, ?m)"
    by (rule align_samples_total)
  moreover have "index ?p = index ?m"
    using ip im by simp
  moreover have "index ?p = filter (\<lambda>k. k \<in> set (index metab)) (index prot)"
    using ip c by simp
  moreover have "index ?p \<noteq> []"
    using ip ne by simp
  ultimately show ?thesis by blast
qed

theorem aligned_indexes_identical_witness:
  "distinct (index [(''A'', 1::int), (''B'', 2), (''C'', 3)])
   \<and> distinct (index [(''C'', 30::int), (''B'', 20), (''D'', 40)])
   \<and> set (index [(''A'', 1::int), (''B'', 2), (''C'', 3)])
       \<inter> set (index [(''C'', 30::int), (''B'', 20), (''D'', 40)]) \<noteq> {}
   \<and> (\<exists>prot' metab'.
        align_samples [(''A'', 1::int), (''B'', 2), (''C'', 3)]
                      [(''C'', 30::int), (''B'', 20), (''D'', 40)] = Inr (prot', metab')
        \<and> index prot' = index metab'
        \<and> index prot' = [''B'', ''C''])"
proof -
  have h1: "distinct (index [(''A'', 1::int), (''B'', 2), (''C'', 3)])"
    by (simp add: index_def)
  have h2: "distinct (index [(''C'', 30::int), (''B'', 20), (''D'', 40)])"
    by (simp add: index_def)
  have h3: "set (index [(''A'', 1::int), (''B'', 2), (''C'', 3)])
       \<inter> set (index [(''C'', 30::int), (''B'', 20), (''D'', 40)]) \<noteq> {}"
    by (simp add: index_def)
  have "filter (\<lambda>k. k \<in> set (index [(''C'', 30::int), (''B'', 20), (''D'', 40)]))
          (index [(''A'', 1::int), (''B'', 2), (''C'', 3)]) = [''B'', ''C'']"
    by (simp add: index_def)
  with aligned_indexes_identical [OF h1 h2 h3] h1 h2 h3 show ?thesis
    by fastforce
qed

text \<open>
  Claim C9 as stated covers every pair of matrices with a common sample.  Cell 34 sets
  the index without checking it, and with the sample \<open>A\<close> listed twice in the first
  matrix the aligned matrices have the indexes \<open>A, A\<close> and \<open>A\<close>.
\<close>

theorem aligned_indexes_repeated_counterexample:
  "align_samples [(''A'', 1::int), (''A'', 2)] [(''A'', 10::int)]
     = Inr ([(''A'', 1), (''A'', 2)], [(''A'', 10)])
   \<and> index [(''A'', 1::int), (''A'', 2)] \<noteq> index [(''A'', 10::int)]"
  by (simp add: align_eval)

section \<open>Properties of the normalisation\<close>

lemma astype_column_mem:
  "astype_column rs = Inr out \<Longrightarrow> r \<in> set out \<Longrightarrow>
   \<exists>q \<in> set rs. Query r = Query q \<and> Comment r = Comment q
      \<and> astype_Int64 (ChEBI q) = Inr (ChEBI r)"
proof (induction rs arbitrary: out)
  case Nil
  then show ?case by simp
next
  case (Cons q rs)
  then show ?case
    by (auto split: sum.splits)
qed

lemma astype_column_query_comment:
  "astype_column rs = Inr out \<Longrightarrow>
   map (\<lambda>r. (Query r, Comment r)) out = map (\<lambda>r. (Query r, Comment r)) rs"
proof (induction rs arbitrary: out)
  case Nil
  then show ?case by simp
next
  case (Cons q rs)
  then show ?case
    by (auto split: sum.splits)
qed

lemma astype_Int64_Whole:
  "v \<noteq> NaN \<Longrightarrow> astype_Int64 v = Inr w \<Longrightarrow> \<exists>i. v = Whole i \<and> w = Some i \<and> int64_range i"
  by (cases v) (auto split: if_splits)

lemma astype_column_castable:
  "list_all (\<lambda>r. \<exists>i. ChEBI r = Whole i \<and> int64_range i) rs \<Longrightarrow>
   astype_column rs =
     Inr (map (\<lambda>r. Row (Query r) (case ChEBI r of Whole i \<Rightarrow> Some i | _ \<Rightarrow> None) (Comment r)) rs)"
  by (induction rs) auto

lemma dropna_map_row:
  "map (\<lambda>r. (Query r, Comment r)) (dropna (map (map_row parse) tbl)) =
   map (\<lambda>r. (Query r, Comment r)) (filter (\<lambda>r. parse (ChEBI r) \<noteq> NaN) tbl)"
  by (induction tbl) (auto simp: dropna_def row.map_sel)

lemmas parser_eval = to_numeric_def strip_def is_space_def unsigned_decimal_def is_digit_def
  digits_val_def digit_val_def

lemmas normalise_eval = normalise_conversion_table_def dropna_def int64_range_def parser_eval

text \<open>
  Claim C2, as the code has it: when cell 8 completes, every surviving record has a
  non-null integer identifier in the 64-bit range, and it is the number read from the
  raw cell of a record with the same query and comment.  Nothing is said about its
  sign: zero and negative numbers survive.
\<close>

theorem normalised_ids:
  assumes "normalise_conversion_table parse tbl = Inr out" and "r \<in> set out"
  shows "\<exists>i. ChEBI r = Some i \<and> int64_range i
           \<and> (\<exists>r0 \<in> set tbl. parse (ChEBI r0) = Whole i
                 \<and> Query r0 = Query r \<and> Comment r0 = Comment r)"
proof -
  let ?rs = "dropna (map (map_row parse) tbl)"
  from assms(1) have "astype_column ?rs = Inr out"
    by (simp add: normalise_conversion_table_def)
  with assms(2) obtain q where q: "q \<in> set ?rs" "Query r = Query q" "Comment r = Comment q"
      "astype_Int64 (ChEBI q) = Inr (ChEBI r)"
    by (blast dest: astype_column_mem)
  from q(1) have nn: "ChEBI q \<noteq> NaN" and "q \<in> set (map (map_row parse) tbl)"
    by (auto simp: dropna_def)
  then obtain r0 where r0: "r0 \<in> set tbl" "q = map_row parse r0"
    by auto
  from nn q(4) obtain i where i: "ChEBI q = Whole i" "ChEBI r = Some i" "int64_range i"
    by (blast dest: astype_Int64_Whole)
  from r0 i q show ?thesis
    by (auto simp: row.map_sel)
qed

theorem normalised_ids_witness:
  "normalise_conversion_table to_numeric
     [Row ''glucose'' (Some ''17234'') ''1'', Row ''unknownXYZ'' None ''0'']
     = Inr [Row ''glucose'' (Some 17234) ''1'']
   \<and> Row ''glucose'' (Some (17234::int)) ''1'' \<in> set [Row ''glucose'' (Some 17234) ''1'']
   \<and> (\<exists>i. ChEBI (Row ''glucose'' (Some 17234) ''1'') = Some i \<and> int64_range i
         \<and> (\<exists>r0 \<in> set [Row ''glucose'' (Some ''17234'') ''1'', Row ''unknownXYZ'' None ''0''].
               to_numeric (ChEBI r0) = Whole i
               \<and> Query r0 = Query (Row ''glucose'' (Some (17234::int)) ''1'')
               \<and> Comment r0 = Comment (Row ''glucose'' (Some (17234::int)) ''1'')))"
proof -
  have h1: "normalise_conversion_table to_numeric
     [Row ''glucose'' (Some ''17234'') ''1'', Row ''unknownXYZ'' None ''0'']
     = Inr [Row ''glucose'' (Some 17234) ''1'']"
    by (simp add: normalise_eval)
  have h2: "Row ''glucose'' (Some 17234) ''1'' \<in> set [Row ''glucose'' (Some (17234::int)) ''1'']"
    by simp
  from normalised_ids [OF h1 h2] h1 h2 show ?thesis by (intro conjI) assumption+
qed

text \<open>
  Claim C2 as stated has only positive identifiers survive.  The raw identifiers
  \<open>-5\<close> and \<open>0\<close> both read as numbers, are not missing, and are kept.
\<close>

theorem normalised_ids_counterexample:
  "normalise_conversion_table to_numeric
     [Row ''glucose'' (Some ''-5'') ''1'', Row ''lactate'' (Some ''0'') ''1'']
     = Inr [Row ''glucose'' (Some (- 5)) ''1'', Row ''lactate'' (Some 0) ''1'']"
  by (simp add: normalise_eval)

text \<open>
  Claim C3, as the code has it: when every raw cell either does not read as a number or
  reads as a whole number in the 64-bit range, cell 8 completes; the cells that do not
  read as a number are coerced to the missing value and their records removed, and
  every other record is kept with its integer identifier.
\<close>

theorem normalise_completes:
  assumes "\<forall>r \<in> set tbl. parse (ChEBI r) = NaN
             \<or> (\<exists>i. parse (ChEBI r) = Whole i \<and> int64_range i)"
  shows "normalise_conversion_table parse tbl =
           Inr (List.map_filter
                  (\<lambda>r. case parse (ChEBI r) of
                          Whole i \<Rightarrow> Some (Row (Query r) (Some i) (Comment r))
                        | _ \<Rightarrow> None) tbl)"
proof -
  let ?rs = "dropna (map (map_row parse) tbl)"
  from assms have "list_all (\<lambda>r. \<exists>i. ChEBI r = Whole i \<and> int64_range i) ?rs"
    by (auto simp: dropna_def list_all_iff row.map_sel)
  then have "astype_column ?rs =
     Inr (map (\<lambda>r. Row (Query r) (case ChEBI r of Whole i \<Rightarrow> Some i | _ \<Rightarrow> None) (Comment r)) ?rs)"
    by (rule astype_column_castable)
  moreover from assms have
    "map (\<lambda>r. Row (Query r) (case ChEBI r of Whole i \<Rightarrow> Some i | _ \<Rightarrow> None) (Comment r)) ?rs =
     List.map_filter
       (\<lambda>r. case parse (ChEBI r) of
               Whole i \<Rightarrow> Some (Row (Query r) (Some i) (Comment r))
             | _ \<Rightarrow> None) tbl"
    by (induction tbl) (auto simp: dropna_def List.map_filter_simps row.map_sel)
  ultimately show ?thesis
    by (simp add: normalise_conversion_table_def)
qed

theorem normalise_completes_witness:
  "list_all (\<lambda>r. to_numeric (ChEBI r) = NaN
                 \<or> (\<exists>i. to_numeric (ChEBI r) = Whole i \<and> int64_range i))
     [Row ''glucose'' (Some ''17234'') ''1'', Row ''pyruvate'' (Some ''abc'') ''0'',
      Row ''citrate'' (Some ''NA'') ''0'', Row ''unknownXYZ'' None ''0'']
   \<and> normalise_conversion_table to_numeric
        [Row ''glucose'' (Some ''17234'') ''1'', Row ''pyruvate'' (Some ''abc'') ''0'',
         Row ''citrate'' (Some ''NA'') ''0'', Row ''unknownXYZ'' None ''0'']
      = Inr [Row ''glucose'' (Some 17234) ''1'']"
proof -
  have h: "\<forall>r \<in> set [Row ''glucose'' (Some ''17234'') ''1'', Row ''pyruvate'' (Some ''abc'') ''0'',
                Row ''citrate'' (Some ''NA'') ''0'', Row ''unknownXYZ'' None ''0''].
       to_numeric (ChEBI r) = NaN \<or> (\<exists>i. to_numeric (ChEBI r) = Whole i \<and> int64_range i)"
    by (simp add: parser_eval int64_range_def)
  have "List.map_filter
          (\<lambda>r. case to_numeric (ChEBI r) of
                  Whole i \<Rightarrow> Some (Row (Query r) (Some i) (Comment r))
                | _ \<Rightarrow> None)
          [Row ''glucose'' (Some ''17234'') ''1'', Row ''pyruvate'' (Some ''abc'') ''0'',
           Row ''citrate'' (Some ''NA'') ''0'', Row ''unknownXYZ'' None ''0'']
        = [Row ''glucose'' (Some 17234) ''1'']"
    by (simp add: List.map_filter_simps parser_eval)
  with normalise_completes [OF h] h show ?thesis by (simp add: list_all_iff)
qed

text \<open>
  Claim C3 as stated has the normalisation complete on every table.  The raw
  identifier \<open>1.5\<close> reads as a number, so it is neither coerced nor dropped, and
  the cast to the integer column raises.
\<close>

theorem normalise_raises_counterexample:
  "normalise_conversion_table to_numeric
     [Row ''glucose'' (Some ''17234'') ''1'', Row ''lactate'' (Some ''1.5'') ''1'']
     = Inl TypeError"
  by (simp add: normalise_eval)

text \<open>
  Claim C10: when cell 8 completes, the query and comment fields of the surviving
  records are those of the input records whose identifier is not missing, unchanged and
  in the order of the input table.
\<close>

theorem normalise_frame:
  assumes "normalise_conversion_table parse tbl = Inr out"
  shows "map (\<lambda>r. (Query r, Comment r)) out =
           map (\<lambda>r. (Query r, Comment r)) (filter (\<lambda>r. parse (ChEBI r) \<noteq> NaN) tbl)
       \<and> subseq (map (\<lambda>r. (Query r, Comment r)) out) (map (\<lambda>r. (Query r, Comment r)) tbl)"
proof -
  from assms have "astype_column (dropna (map (map_row parse) tbl)) = Inr out"
    by (simp add: normalise_conversion_table_def)
  then have "map (\<lambda>r. (Query r, Comment r)) out =
      map (\<lambda>r. (Query r, Comment r)) (dropna (map (map_row parse) tbl))"
    by (rule astype_column_query_comment)
  then have eq: "map (\<lambda>r. (Query r, Comment r)) out =
      map (\<lambda>r. (Query r, Comment r)) (filter (\<lambda>r. parse (ChEBI r) \<noteq> NaN) tbl)"
    by (simp add: dropna_map_row)
  have "subseq (filter (\<lambda>r. parse (ChEBI r) \<noteq> NaN) tbl) tbl"
    by simp
  then have "subseq (map (\<lambda>r. (Query r, Comment r)) (filter (\<lambda>r. parse (ChEBI r) \<noteq> NaN) tbl))
                    (map (\<lambda>r. (Query r, Comment r)) tbl)"
    by (rule subseq_map)
  with eq show ?thesis by simp
qed

theorem normalise_frame_witness:
  "normalise_conversion_table to_numeric
     [Row ''glucose'' (Some ''17234'') ''1'', Row ''unknownXYZ'' None ''0'',
      Row ''lactate'' (Some ''422'') ''1'']
     = Inr [Row ''glucose'' (Some 17234) ''1'', Row ''lactate'' (Some 422) ''1'']
   \<and> map (\<lambda>r. (Query r, Comment r))
        [Row ''glucose'' (Some (17234::int)) ''1'', Row ''lactate'' (Some 422) ''1'']
     = map (\<lambda>r. (Query r, Comment r))
        (filter (\<lambda>r. to_numeric (ChEBI r) \<noteq> NaN)
           [Row ''glucose'' (Some ''17234'') ''1'', Row ''unknownXYZ'' None ''0'',
            Row ''lactate'' (Some ''422'') ''1''])
   \<and> subseq (map (\<lambda>r. (Query r, Comment r))
               [Row ''glucose'' (Some (17234::int)) ''1'', Row ''lactate'' (Some 422) ''1''])
            (map (\<lambda>r. (Query r, Comment r))
               [Row ''glucose'' (Some ''17234'') ''1'', Row ''unknownXYZ'' None ''0'',
                Row ''lactate'' (Some ''422'') ''1''])"
proof -
  have h: "normalise_conversion_table to_numeric
     [Row ''glucose'' (Some ''17234'') ''1'', Row ''unknownXYZ'' None ''0'',
      Row ''lactate'' (Some ''422'') ''1'']
     = Inr [Row ''glucose'' (Some 17234) ''1'', Row ''lactate'' (Some 422) ''1'']"
    by (simp add: normalise_eval)
  from normalise_frame [OF h] h show ?thesis by (intro conjI) (elim conjE, assumption)+
qed

section \<open>Properties of the re-annotation\<close>

lemma rename_key_is_id: "rename_key tbl k = Some k' \<Longrightarrow> \<exists>i. k' = ChEBI_ID i"
  by (cases k) (auto simp: rename_key_def)

lemma keys_map_filter_rename:
  "map fst (List.map_filter (rename_column tbl) m) = List.map_filter (rename_key tbl) (map fst m)"
  by (induction m) (auto simp: List.map_filter_simps rename_column_def split: option.splits)

lemma keys_reannotate:
  "map fst (reannotate merge tbl m) = unique (List.map_filter (rename_key tbl) (map fst m))"
  by (simp add: reannotate_def Let_def comp_def keys_map_filter_rename)

lemma group_distinct_keys:
  assumes "distinct (map fst xs)"
  shows "map (\<lambda>k. (k, case map snd (filter (\<lambda>kc. fst kc = k) xs) of [c] \<Rightarrow> c | cs \<Rightarrow> merge cs))
             (map fst xs) = xs"
proof -
  have "(fst x, case map snd (filter (\<lambda>kc. fst kc = fst x) xs) of [c] \<Rightarrow> c | cs \<Rightarrow> merge cs) = x"
    if "x \<in> set xs" for x
  proof -
    from that have "(fst x, snd x) \<in> set xs" by simp
    with assms have "filter (\<lambda>kc. fst kc = fst x) xs = [(fst x, snd x)]"
      by (rule filter_key_distinct)
    then show ?thesis by simp
  qed
  then have "map ((\<lambda>k. (k, case map snd (filter (\<lambda>kc. fst kc = k) xs) of [c] \<Rightarrow> c | cs \<Rightarrow> merge cs)) \<circ> fst) xs
      = map (\<lambda>x. x) xs"
    by (intro map_cong) (auto simp: comp_def)
  then show ?thesis by (simp add: comp_def)
qed

lemma reannotate_no_collision:
  assumes "distinct (List.map_filter (rename_key tbl) (map fst m))"
  shows "reannotate merge tbl m = List.map_filter (rename_column tbl) m"
proof -
  let ?renamed = "List.map_filter (rename_column tbl) m"
  from assms have d: "distinct (map fst ?renamed)"
    by (simp add: keys_map_filter_rename)
  then have "unique (map fst ?renamed) = map fst ?renamed"
    by (rule unique_distinct)
  with group_distinct_keys [OF d, of merge] show ?thesis
    by (simp add: reannotate_def Let_def)
qed

text \<open>The entry of a name is the identifier of one of its records in the table.\<close>

lemma resolvedId_Some:
  assumes "resolvedId tbl n = Some i"
  shows "\<exists>r \<in> set tbl. Query r = n \<and> ChEBI r = Some i"
proof (cases "filter (\<lambda>r. Query r = n \<and> ChEBI r \<noteq> None) tbl")
  case Nil
  with assms show ?thesis by (simp add: resolvedId_def)
next
  case (Cons r rs)
  then have "r \<in> set (filter (\<lambda>r. Query r = n \<and> ChEBI r \<noteq> None) tbl)" by simp
  then have "r \<in> set tbl" and "Query r = n" by simp_all
  moreover from assms Cons have "ChEBI r = Some i" by (simp add: resolvedId_def)
  ultimately show ?thesis by blast
qed

lemma resolvedId_None:
  "(resolvedId tbl n = None) = (\<not> (\<exists>r \<in> set tbl. Query r = n \<and> ChEBI r \<noteq> None))"
proof (cases "filter (\<lambda>r. Query r = n \<and> ChEBI r \<noteq> None) tbl")
  case Nil
  then show ?thesis by (auto simp: resolvedId_def filter_empty_conv)
next
  case (Cons r rs)
  then have "r \<in> set (filter (\<lambda>r. Query r = n \<and> ChEBI r \<noteq> None) tbl)" by simp
  then have "r \<in> set tbl" and "Query r = n" and "ChEBI r \<noteq> None" by simp_all
  with Cons show ?thesis by (auto simp: resolvedId_def)
qed

lemma renamed_columns_rel:
  assumes "\<forall>kc \<in> set m. \<exists>n. fst kc = CompoundName n"
  shows "list_all2
           (\<lambda>kc out. snd out = snd kc
              \<and> (\<exists>n i. fst kc = CompoundName n \<and> fst out = ChEBI_ID i
                    \<and> (\<exists>r \<in> set tbl. Query r = n \<and> ChEBI r = Some i)))
           (filter (\<lambda>kc. \<exists>n. fst kc = CompoundName n
                        \<and> (\<exists>r \<in> set tbl. Query r = n \<and> ChEBI r \<noteq> None)) m)
           (List.map_filter (rename_column tbl) m)"
proof -
  define R :: "colkey \<times> 'a \<Rightarrow> colkey \<times> 'a \<Rightarrow> bool" where
    "R = (\<lambda>kc out. snd out = snd kc
              \<and> (\<exists>n i. fst kc = CompoundName n \<and> fst out = ChEBI_ID i
                    \<and> (\<exists>r \<in> set tbl. Query r = n \<and> ChEBI r = Some i)))"
  define P :: "colkey \<times> 'a \<Rightarrow> bool" where
    "P = (\<lambda>kc. \<exists>n. fst kc = CompoundName n
                        \<and> (\<exists>r \<in> set tbl. Query r = n \<and> ChEBI r \<noteq> None))"
  from assms have "list_all2 R (filter P m) (List.map_filter (rename_column tbl) m)"
  proof (induction m)
    case Nil
    then show ?case by (simp add: List.map_filter_simps)
  next
    case (Cons kc m)
    from Cons.prems obtain n where n: "fst kc = CompoundName n" by auto
    from Cons have IH: "list_all2 R (filter P m) (List.map_filter (rename_column tbl) m)"
      by simp
    show ?case
    proof (cases "resolvedId tbl n")
      case None
      then have "\<not> (\<exists>r \<in> set tbl. Query r = n \<and> ChEBI r \<noteq> None)"
        using resolvedId_None [of tbl n] by blast
      with n have "\<not> P kc" by (auto simp: P_def)
      moreover from n None have "rename_column tbl kc = None"
        by (simp add: rename_column_def rename_key_def)
      ultimately show ?thesis using IH
        by (simp add: List.map_filter_simps)
    next
      case (Some i)
      then obtain r where r: "r \<in> set tbl" "Query r = n" "ChEBI r = Some i"
        by (blast dest: resolvedId_Some)
      with n have "P kc" by (auto simp: P_def)
      moreover from n Some have rc: "rename_column tbl kc = Some (ChEBI_ID i, snd kc)"
        by (simp add: rename_column_def rename_key_def)
      moreover from n r have "R kc (ChEBI_ID i, snd kc)"
        by (auto simp: R_def)
      ultimately show ?thesis using IH
        by (simp add: List.map_filter_simps)
    qed
  qed
  then show ?thesis by (simp only: R_def P_def)
qed

lemma map_filter_rename_ids:
  "\<forall>kc \<in> set m. \<exists>i. fst kc = ChEBI_ID i \<Longrightarrow> List.map_filter (rename_column tbl) m = m"
  by (induction m) (auto simp: List.map_filter_simps rename_column_def rename_key_def)

lemma reannotate_keys_are_ids:
  assumes "kc \<in> set (reannotate merge tbl m)"
  shows "\<exists>i. fst kc = ChEBI_ID i"
proof -
  from assms have "fst kc \<in> set (map fst (reannotate merge tbl m))" by simp
  then have "fst kc \<in> set (List.map_filter (rename_key tbl) (map fst m))"
    by (simp add: keys_reannotate)
  then show ?thesis
    by (auto simp: List.map_filter_def dest: rename_key_is_id)
qed

lemmas reannotate_eval = reannotate_def rename_column_def rename_key_def resolvedId_def
  List.map_filter_simps Let_def

text \<open>
  Claim C4, as the model has it: for a matrix keyed by compound names in which no two
  columns resolve to the same identifier, the output consists of exactly the columns
  whose compound name has a record with an identifier in the cleaned table, in their
  order and with their contents, each renamed to the identifier of such a record, and
  every other column is dropped; the columns \<open>glucose\<close>, \<open>lactate\<close>, \<open>unknownXYZ\<close> with
  glucose resolved to 17234 and lactate to 422 give the columns 17234 and 422 only.
\<close>

theorem reannotate_columns:
  assumes "\<forall>kc \<in> set m. \<exists>n. fst kc = CompoundName n"
    and "distinct (List.map_filter (rename_key tbl) (map fst m))"
  shows "list_all2
           (\<lambda>kc out. snd out = snd kc
              \<and> (\<exists>n i. fst kc = CompoundName n \<and> fst out = ChEBI_ID i
                    \<and> (\<exists>r \<in> set tbl. Query r = n \<and> ChEBI r = Some i)))
           (filter (\<lambda>kc. \<exists>n. fst kc = CompoundName n
                        \<and> (\<exists>r \<in> set tbl. Query r = n \<and> ChEBI r \<noteq> None)) m)
           (reannotate merge tbl m)
       \<and> reannotate merge [Row ''glucose'' (Some 17234) c, Row ''lactate'' (Some 422) c']
           [(CompoundName ''glucose'', x), (CompoundName ''lactate'', y),
            (CompoundName ''unknownXYZ'', z)]
         = [(ChEBI_ID 17234, x), (ChEBI_ID 422, y)]"
proof
  from assms(2) have "reannotate merge tbl m = List.map_filter (rename_column tbl) m"
    by (rule reannotate_no_collision)
  with renamed_columns_rel [OF assms(1), of tbl]
  show "list_all2
           (\<lambda>kc out. snd out = snd kc
              \<and> (\<exists>n i. fst kc = CompoundName n \<and> fst out = ChEBI_ID i
                    \<and> (\<exists>r \<in> set tbl. Query r = n \<and> ChEBI r = Some i)))
           (filter (\<lambda>kc. \<exists>n. fst kc = CompoundName n
                        \<and> (\<exists>r \<in> set tbl. Query r = n \<and> ChEBI r \<noteq> None)) m)
           (reannotate merge tbl m)"
    by simp
next
  show "reannotate merge [Row ''glucose'' (Some 17234) c, Row ''lactate'' (Some 422) c']
           [(CompoundName ''glucose'', x), (CompoundName ''lactate'', y),
            (CompoundName ''unknownXYZ'', z)]
         = [(ChEBI_ID 17234, x), (ChEBI_ID 422, y)]"
    by (simp add: reannotate_eval)
qed

text \<open>
  The same scenario from the raw table, where \<open>unknownXYZ\<close> has no identifier: the
  normalisation of cell 8 removes its record, and the re-annotation drops its column.
\<close>

theorem reannotate_columns_witness:
  "normalise_conversion_table to_numeric
     [Row ''glucose'' (Some ''17234'') ''1'', Row ''lactate'' (Some ''422'') ''1'',
      Row ''unknownXYZ'' None ''0'']
     = Inr [Row ''glucose'' (Some 17234) ''1'', Row ''lactate'' (Some 422) ''1'']
   \<and> list_all (\<lambda>kc. \<exists>n. fst kc = CompoundName n)
        [(CompoundName ''glucose'', [5::int, 7]), (CompoundName ''lactate'', [6, 8]),
         (CompoundName ''unknownXYZ'', [1, 2])]
   \<and> distinct (List.map_filter
        (rename_key [Row ''glucose'' (Some 17234) ''1'', Row ''lactate'' (Some 422) ''1''])
        (map fst [(CompoundName ''glucose'', [5::int, 7]), (CompoundName ''lactate'', [6, 8]),
                  (CompoundName ''unknownXYZ'', [1, 2])]))
   \<and> list_all2
        (\<lambda>kc out. snd out = snd kc
           \<and> (\<exists>n i. fst kc = CompoundName n \<and> fst out = ChEBI_ID i
                 \<and> (\<exists>r \<in> set [Row ''glucose'' (Some 17234) ''1'', Row ''lactate'' (Some 422) ''1''].
                       Query r = n \<and> ChEBI r = Some i)))
        [(CompoundName ''glucose'', [5::int, 7]), (CompoundName ''lactate'', [6, 8])]
        (reannotate hd [Row ''glucose'' (Some 17234) ''1'', Row ''lactate'' (Some 422) ''1'']
           [(CompoundName ''glucose'', [5::int, 7]), (CompoundName ''lactate'', [6, 8]),
            (CompoundName ''unknownXYZ'', [1, 2])])
   \<and> reannotate hd [Row ''glucose'' (Some 17234) ''1'', Row ''lactate'' (Some 422) ''1'']
        [(CompoundName ''glucose'', [5::int, 7]), (CompoundName ''lactate'', [6, 8]),
         (CompoundName ''unknownXYZ'', [1, 2])]
      = [(ChEBI_ID 17234, [5, 7]), (ChEBI_ID 422, [6, 8])]"
proof -
  let ?tbl = "[Row ''glucose'' (Some (17234::int)) ''1'', Row ''lactate'' (Some 422) ''1'']"
  let ?m = "[(CompoundName ''glucose'', [5::int, 7]), (CompoundName ''lactate'', [6, 8]),
             (CompoundName ''unknownXYZ'', [1, 2])]"
  have n: "normalise_conversion_table to_numeric
     [Row ''glucose'' (Some ''17234'') ''1'', Row ''lactate'' (Some ''422'') ''1'',
      Row ''unknownXYZ'' None ''0''] = Inr ?tbl"
    by (simp add: normalise_eval)
  have h1: "\<forall>kc \<in> set ?m. \<exists>n. fst kc = CompoundName n"
    by simp
  then have h1': "list_all (\<lambda>kc. \<exists>n. fst kc = CompoundName n) ?m"
    by (simp only: list_all_iff)
  have h2: "distinct (List.map_filter (rename_key ?tbl) (map fst ?m))"
    by (simp add: reannotate_eval)
  have f: "filter (\<lambda>kc. \<exists>n. fst kc = CompoundName n
                        \<and> (\<exists>r \<in> set ?tbl. Query r = n \<and> ChEBI r \<noteq> None)) ?m
           = [(CompoundName ''glucose'', [5, 7]), (CompoundName ''lactate'', [6, 8])]"
    by simp
  note t = reannotate_columns [OF h1 h2, of hd "''1''" "''1''" "[5, 7]" "[6, 8]" "[1, 2]"]
  from t have r1: "list_all2
        (\<lambda>kc out. snd out = snd kc
           \<and> (\<exists>n i. fst kc = CompoundName n \<and> fst out = ChEBI_ID i
                 \<and> (\<exists>r \<in> set ?tbl. Query r = n \<and> ChEBI r = Some i)))
        [(CompoundName ''glucose'', [5::int, 7]), (CompoundName ''lactate'', [6, 8])]
        (reannotate hd ?tbl ?m)"
    unfolding f by (rule conjunct1)
  from t have r2: "reannotate hd ?tbl ?m = [(ChEBI_ID 17234, [5, 7]), (ChEBI_ID 422, [6, 8])]"
    by (rule conjunct2)
  from n h1' h2 r1 r2 show ?thesis by (intro conjI) assumption+
qed

text \<open>
  Claim C4 as stated holds for every matrix and table.  With \<open>glucose\<close> and \<open>dextrose\<close>
  both resolved to 17234, both columns have an entry, and the output, whose keys are
  unique, has one column only.
\<close>

theorem reannotate_collision_counterexample:
  "reannotate hd [Row ''glucose'' (Some 17234) ''1'', Row ''dextrose'' (Some 17234) ''1'']
     [(CompoundName ''glucose'', [5::int, 7]), (CompoundName ''dextrose'', [6, 8])]
   = [(ChEBI_ID 17234, [5, 7])]"
  by (simp add: reannotate_eval)

text \<open>
  Claim C7: re-annotating a re-annotated matrix with the same table returns it
  unchanged, whatever the merge policy.  The keys of a re-annotated matrix are
  identifiers, pairwise different, so the second pass renames nothing and merges
  nothing.
\<close>

theorem reannotate_idempotent:
  "reannotate merge tbl (reannotate merge tbl m) = reannotate merge tbl m"
proof -
  let ?m' = "reannotate merge tbl m"
  have ids: "\<forall>kc \<in> set ?m'. \<exists>i. fst kc = ChEBI_ID i"
    by (blast dest: reannotate_keys_are_ids)
  then have same: "List.map_filter (rename_column tbl) ?m' = ?m'"
    by (rule map_filter_rename_ids)
  have "distinct (map fst ?m')"
    by (simp add: keys_reannotate)
  moreover have "List.map_filter (rename_key tbl) (map fst ?m') = map fst ?m'"
    using keys_map_filter_rename [of tbl ?m'] same by simp
  ultimately have "distinct (List.map_filter (rename_key tbl) (map fst ?m'))"
    by simp
  then have "reannotate merge tbl ?m' = List.map_filter (rename_column tbl) ?m'"
    by (rule reannotate_no_collision)
  with same show ?thesis by simp
qed

section \<open>Properties of the coverage filter\<close>

lemma coverage_le_members: "coverage pw m \<le> card (set (members pw))"
  by (simp add: coverage_def card_mono)

lemma coverage_pos:
  "(Suc 0 \<le> coverage pw m) = (set (members pw) \<inter> set (column_ids m) \<noteq> {})"
  by (simp add: coverage_def Suc_le_eq card_gt_0_iff)

text \<open>
  Claim C5: for a minimum coverage \<open>k \<ge> 1\<close> the filter returns exactly the pathways
  with at least \<open>k\<close> members among the matrix columns; for \<open>k = 1\<close> these are the
  pathways that share a member with the columns; and when \<open>k\<close> exceeds the membership
  of every pathway the result is the empty database, not an error.
\<close>

theorem coverage_filter_spec:
  assumes "1 \<le> k"
  shows "coverage_filter k db m =
           Inr (filter (\<lambda>e. k \<le> int (card (set (members (snd e)) \<inter> set (column_ids m)))) db)
       \<and> coverage_filter 1 db m =
           Inr (filter (\<lambda>e. set (members (snd e)) \<inter> set (column_ids m) \<noteq> {}) db)
       \<and> ((\<forall>e \<in> set db. int (card (set (members (snd e)))) < k) \<longrightarrow>
            coverage_filter k db m = Inr [])"
proof (intro conjI impI)
  from assms show "coverage_filter k db m =
           Inr (filter (\<lambda>e. k \<le> int (card (set (members (snd e)) \<inter> set (column_ids m)))) db)"
    by (simp add: coverage_filter_def coverage_def)
next
  show "coverage_filter 1 db m =
           Inr (filter (\<lambda>e. set (members (snd e)) \<inter> set (column_ids m) \<noteq> {}) db)"
    by (simp add: coverage_filter_def coverage_pos)
next
  assume small: "\<forall>e \<in> set db. int (card (set (members (snd e)))) < k"
  have "\<not> k \<le> int (coverage (snd e) m)" if "e \<in> set db" for e
  proof -
    from small that have "int (card (set (members (snd e)))) < k" by blast
    moreover have "int (coverage (snd e) m) \<le> int (card (set (members (snd e))))"
      using coverage_le_members [of "snd e" m] by simp
    ultimately show ?thesis by linarith
  qed
  then have "filter (\<lambda>e. k \<le> int (coverage (snd e) m)) db = []"
    by (simp add: filter_empty_conv)
  with assms show "coverage_filter k db m = Inr []"
    by (simp add: coverage_filter_def)
qed

text \<open>
  The database \<open>{P1: {17234, 422, 999}, P2: {17234}}\<close> with columns 17234 and 422:
  minimum coverage 2 keeps \<open>P1\<close> only, minimum coverage 4 keeps nothing.
\<close>

theorem coverage_filter_spec_witness:
  "(1::int) \<le> 2
   \<and> coverage_filter 2
        [(''P1'', \<lparr>name = ''pathway 1'', members = [17234, 422, 999]\<rparr>),
         (''P2'', \<lparr>name = ''pathway 2'', members = [17234]\<rparr>)]
        [(ChEBI_ID 17234, [5::int, 7]), (ChEBI_ID 422, [6, 8])]
      = Inr [(''P1'', \<lparr>name = ''pathway 1'', members = [17234, 422, 999]\<rparr>)]
   \<and> (1::int) \<le> 4
   \<and> list_all (\<lambda>e. int (card (set (members (snd e)))) < 4)
        [(''P1'', \<lparr>name = ''pathway 1'', members = [17234, 422, 999]\<rparr>),
         (''P2'', \<lparr>name = ''pathway 2'', members = [17234]\<rparr>)]
   \<and> coverage_filter 4
        [(''P1'', \<lparr>name = ''pathway 1'', members = [17234, 422, 999]\<rparr>),
         (''P2'', \<lparr>name = ''pathway 2'', members = [17234]\<rparr>)]
        [(ChEBI_ID 17234, [5::int, 7]), (ChEBI_ID 422, [6, 8])]
      = Inr []"
proof -
  let ?db = "[(''P1'', \<lparr>name = ''pathway 1'', members = [17234, 422, 999]\<rparr>),
              (''P2'', \<lparr>name = ''pathway 2'', members = [17234]\<rparr>)]"
  let ?m = "[(ChEBI_ID 17234, [5::int, 7]), (ChEBI_ID 422, [6, 8])]"
  have k2: "(1::int) \<le> 2" and k4: "(1::int) \<le> 4" by simp_all
  have small: "\<forall>e \<in> set ?db. int (card (set (members (snd e)))) < 4"
    by simp
  from coverage_filter_spec [OF k2, of ?db ?m]
  have "coverage_filter 2 ?db ?m =
          Inr (filter (\<lambda>e. 2 \<le> int (card (set (members (snd e)) \<inter> set (column_ids ?m)))) ?db)"
    by blast
  also have "\<dots> = Inr [(''P1'', \<lparr>name = ''pathway 1'', members = [17234, 422, 999]\<rparr>)]"
    by (simp add: column_ids_def List.map_filter_simps)
  finally have r2: "coverage_filter 2 ?db ?m
      = Inr [(''P1'', \<lparr>name = ''pathway 1'', members = [17234, 422, 999]\<rparr>)]" .
  from coverage_filter_spec [OF k4, of ?db ?m] small
  have r4: "coverage_filter 4 ?db ?m = Inr []"
    by blast
  from small have small': "list_all (\<lambda>e. int (card (set (members (snd e)))) < 4) ?db"
    by (simp only: list_all_iff)
  from k2 k4 small' r2 r4 show ?thesis by (intro conjI) assumption+
qed

text \<open>
  Claim C8: a minimum coverage \<open>k \<le> 0\<close> is rejected, whatever the database and the
  matrix.
\<close>

theorem coverage_filter_rejects:
  assumes "k \<le> 0"
  shows "coverage_filter k db m = Inl RejectedCoverage"
  using assms by (simp add: coverage_filter_def)

theorem coverage_filter_rejects_witness:
  "(0::int) \<le> 0
   \<and> coverage_filter 0
        [(''P1'', \<lparr>name = ''pathway 1'', members = [17234, 422, 999]\<rparr>),
         (''P2'', \<lparr>name = ''pathway 2'', members = [17234]\<rparr>)]
        [(ChEBI_ID 17234, [5::int, 7]), (ChEBI_ID 422, [6, 8])]
      = Inl RejectedCoverage"
proof -
  have h: "(0::int) \<le> 0" by simp
  from coverage_filter_rejects [OF h] h show ?thesis by (intro conjI) assumption+
qed

end
